theory Spec2Isabelle
  imports Complex_Main
begin

section \<open>The REINFORCE agent (pygeneses/models/reinforce/reinforce_nn.py)\<close>

text \<open>
  Tensors of the source are modelled over exact real arithmetic: a vector is a
  \<open>real list\<close>, a weight matrix a list of rows.  The batch dimension that \<open>act\<close>
  adds with \<open>unsqueeze(0)\<close> always has size one and is not represented.
  Rounding and the floating-point safeguards of the library are outside this model.
\<close>

subsection \<open>Failures\<close>

text \<open>
  The source has no exception classes of its own; every failure is raised by the
  library it calls.  \<open>ShapeError\<close> is the error \<open>nn.Linear\<close> raises when the last
  dimension of its input differs from \<open>in_features\<close>; \<open>InvalidConfigError\<close> is the error
  \<open>torch.topk\<close> raises when \<open>k\<close> is outside the range of the dimension;
  \<open>IndexError\<close> is an out-of-range read of an array.
\<close>

datatype error = ShapeError | InvalidConfigError | IndexError

subsection \<open>Layers\<close>

datatype device = CPU | CUDA

record linear =
  in_features :: nat
  out_features :: nat
  weight :: "real list list"
  bias :: "real list"

record agent =
  device :: device
  fc1 :: linear
  fc2 :: linear

text \<open>
  What \<open>nn.Linear(in_features, out_features)\<close> constructs: a weight of
  \<open>out_features\<close> rows of \<open>in_features\<close> entries and a bias of \<open>out_features\<close> entries.
\<close>

definition linear_shaped :: "linear \<Rightarrow> bool" where
  "linear_shaped l \<longleftrightarrow>
     length (weight l) = out_features l \<and>
     list_all (\<lambda>row. length row = in_features l) (weight l) \<and>
     length (bias l) = out_features l"

text \<open>
  What \<open>Agent.__init__(s_size, a_size, device, h_size)\<close> constructs:
  \<open>fc1 = nn.Linear(s_size, h_size)\<close> and \<open>fc2 = nn.Linear(h_size, a_size)\<close>.
\<close>

definition agent_shaped :: "nat \<Rightarrow> nat \<Rightarrow> nat \<Rightarrow> agent \<Rightarrow> bool" where
  "agent_shaped s_size a_size h_size ag \<longleftrightarrow>
     linear_shaped (fc1 ag) \<and> linear_shaped (fc2 ag) \<and>
     in_features (fc1 ag) = s_size \<and> out_features (fc1 ag) = h_size \<and>
     in_features (fc2 ag) = h_size \<and> out_features (fc2 ag) = a_size"

definition dot :: "real list \<Rightarrow> real list \<Rightarrow> real" where
  "dot row x = sum_list (map2 (*) row x)"

text \<open>Applying a layer: \<open>y = x W\<^sup>T + b\<close>, refused when the input has the wrong length.\<close>

definition linear_apply :: "linear \<Rightarrow> real list \<Rightarrow> error + real list" where
  "linear_apply l x =
     (if length x \<noteq> in_features l then Inl ShapeError
      else Inr (map2 (\<lambda>row b. dot row x + b) (weight l) (bias l)))"

definition relu :: "real \<Rightarrow> real" where
  "relu x = max 0 x"

definition softmax :: "real list \<Rightarrow> real list" where
  "softmax xs = map (\<lambda>x. exp x / sum_list (map exp xs)) xs"

subsection \<open>Agent.forward\<close>

definition forward :: "agent \<Rightarrow> real list \<Rightarrow> error + (real list \<times> real list)" where
  "forward ag x =
     (case linear_apply (fc1 ag) x of
        Inl e \<Rightarrow> Inl e
      | Inr x1 \<Rightarrow>
          (let emb = x1;
               x2 = map relu x1
           in case linear_apply (fc2 ag) x2 of
                Inl e \<Rightarrow> Inl e
              | Inr x3 \<Rightarrow> Inr (softmax x3, emb)))"

subsection \<open>Library operations used by Agent.act\<close>

text \<open>
  \<open>torch.topk\<close> is a library routine.  The selection it performs is a parameter \<open>tk\<close>
  of the model; the range check on \<open>k\<close> is the library's.
\<close>

type_synonym topk_fn = "real list \<Rightarrow> nat \<Rightarrow> real list \<times> nat list"

definition torch_topk :: "topk_fn \<Rightarrow> real list \<Rightarrow> int \<Rightarrow> error + (real list \<times> nat list)" where
  "torch_topk tk xs k =
     (if k < 0 \<or> int (length xs) < k then Inl InvalidConfigError
      else Inr (tk xs (nat k)))"

text \<open>
  What the library documents of \<open>torch.topk(input, k)\<close> (largest, sorted): the \<open>k\<close>
  largest entries in non-increasing order together with their positions.  The order of
  entries of equal value is left open by the library.  \<open>ranks_top xs k js\<close> says that
  \<open>js\<close> lists \<open>k\<close> distinct positions of \<open>xs\<close> in non-increasing order of their
  entries, and that no position left out holds a larger entry than one listed.
\<close>

definition ranks_top :: "real list \<Rightarrow> nat \<Rightarrow> nat list \<Rightarrow> bool" where
  "ranks_top xs k js \<longleftrightarrow>
     length js = k \<and> distinct js \<and> (\<forall>i\<in>set js. i < length xs) \<and>
     sorted_wrt (\<lambda>i j. xs ! j \<le> xs ! i) js \<and>
     (\<forall>j<length xs. j \<notin> set js \<longrightarrow> (\<forall>i\<in>set js. xs ! j \<le> xs ! i))"

definition topk_contract :: "topk_fn \<Rightarrow> bool" where
  "topk_contract tk \<longleftrightarrow>
     (\<forall>xs k. k \<le> length xs \<longrightarrow>
        (case tk xs k of (vs, js) \<Rightarrow> vs = map (\<lambda>i. xs ! i) js \<and> ranks_top xs k js))"

text \<open>
  Two routines that meet this description and differ only on entries of equal value:
  \<open>topk_lo\<close> lists the lower position first, \<open>topk_hi\<close> the higher one.
  (\<open>sort_key\<close> is a stable insertion sort.)  Neither is the library's routine on every
  input: the library orders equal entries as its selection steps leave them.  Where the
  selected entries are all different, every routine that meets the description returns
  the same ranking.  On the distribution \<open>[0.1, 0.3, 0.05, 0.45, 0.1]\<close> with \<open>k = 5\<close> the
  description admits \<open>[3, 1, 0, 4, 2]\<close> and \<open>[3, 1, 4, 0, 2]\<close>; the library's routine
  delivers the second (its partition step moves the entry at position 4 ahead of the one
  at position 0), which is also what \<open>topk_hi\<close> returns there.
\<close>

definition topk_by :: "nat list \<Rightarrow> real list \<Rightarrow> nat \<Rightarrow> real list \<times> nat list" where
  "topk_by order xs k =
     (let js = take k (sort_key (\<lambda>i. - (xs ! i)) order) in (map (\<lambda>i. xs ! i) js, js))"

definition topk_lo :: topk_fn where
  "topk_lo xs k = topk_by [0..<length xs] xs k"

definition topk_hi :: topk_fn where
  "topk_hi xs k = topk_by (rev [0..<length xs]) xs k"

text \<open>
  \<open>Categorical(probs)\<close> normalises its argument by its sum; \<open>log_prob\<close> reads the
  logarithm of the normalised probability at the given index.
\<close>

definition Categorical :: "real list \<Rightarrow> real list" where
  "Categorical probs = map (\<lambda>p. p / sum_list probs) probs"

definition log_prob :: "real list \<Rightarrow> nat \<Rightarrow> error + real" where
  "log_prob m a = (if a < length m then Inr (ln (m ! a)) else Inl IndexError)"

subsection \<open>Agent.act\<close>

text \<open>
  The result of \<open>act\<close>: the action array, the designated action, the log-probabilities
  and the embedding.  \<open>drawn\<close> is the index that \<open>m.sample()\<close> returns.
\<close>

type_synonym decision = "nat list \<times> nat \<times> real list \<times> real list"

definition act :: "topk_fn \<Rightarrow> nat \<Rightarrow> agent \<Rightarrow> real list \<Rightarrow> int \<Rightarrow> bool \<Rightarrow> error + decision" where
  "act tk drawn ag state topk is_rebel =
     (case forward ag state of
        Inl e \<Rightarrow> Inl e
      | Inr (probs, emb) \<Rightarrow>
          if is_rebel then
            (case torch_topk tk probs 13 of
               Inl e \<Rightarrow> Inl e
             | Inr (values, indices) \<Rightarrow>
                 if indices = [] then Inl IndexError
                 else Inr (indices, last indices, map ln values, emb))
          else if topk > 1 then
            (case torch_topk tk probs topk of
               Inl e \<Rightarrow> Inl e
             | Inr (values, indices) \<Rightarrow>
                 if indices = [] then Inl IndexError
                 else Inr (indices, hd indices, map ln values, emb))
          else
            (let m = Categorical probs;
                 action = drawn
             in case log_prob m action of
                  Inl e \<Rightarrow> Inl e
                | Inr lp \<Rightarrow> Inr ([action], action, [lp], emb)))"

text \<open>
  A ranking is stable with respect to the action index when, of two ranked actions of
  equal probability, the one with the lower index comes first.
\<close>

definition index_stable :: "real list \<Rightarrow> nat list \<Rightarrow> bool" where
  "index_stable xs js \<longleftrightarrow>
     (\<forall>p<length js. \<forall>q<length js. p < q \<and> xs ! (js ! p) = xs ! (js ! q) \<longrightarrow> js ! p < js ! q)"

subsection \<open>Concrete agents\<close>

text \<open>
  \<open>s_size = 4\<close>, \<open>a_size = 5\<close>, \<open>h_size = 3\<close>, with parameters for which every state
  has the distribution \<open>[0.1, 0.3, 0.05, 0.45, 0.1]\<close>.
\<close>

definition example_agent :: agent where
  "example_agent =
     \<lparr>device = CPU,
      fc1 = \<lparr>in_features = 4, out_features = 3,
             weight = [[1, 0, 0, 0], [0, 1, 0, 0], [0, 0, 1, 1]], bias = [0, 0, 0]\<rparr>,
      fc2 = \<lparr>in_features = 3, out_features = 5,
             weight = [[0, 0, 0], [0, 0, 0], [0, 0, 0], [0, 0, 0], [0, 0, 0]],
             bias = [ln (1/10), ln (3/10), ln (1/20), ln (9/20), ln (1/10)]\<rparr>\<rparr>"

definition example_state :: "real list" where
  "example_state = [-1, 2, 0, 0]"

text \<open>Thirteen actions; action \<open>i\<close> has probability \<open>(i + 1) / 91\<close>.\<close>

definition rebel_agent :: agent where
  "rebel_agent =
     \<lparr>device = CPU,
      fc1 = \<lparr>in_features = 1, out_features = 1, weight = [[1]], bias = [0]\<rparr>,
      fc2 = \<lparr>in_features = 1, out_features = 13,
             weight = [[0], [0], [0], [0], [0], [0], [0], [0], [0], [0], [0], [0], [0]],
             bias = [ln (1/91), ln (2/91), ln (3/91), ln (4/91), ln (5/91), ln (6/91),
                     ln (7/91), ln (8/91), ln (9/91), ln (10/91), ln (11/91), ln (12/91),
                     ln (13/91)]\<rparr>\<rparr>"

section \<open>The analytics service (pygeneses/vitaboard/app.py)\<close>

text \<open>
  The handlers \<open>groups\<close> and \<open>stats\<close> answer a form request with a JSON object.  The
  file system is seen through \<open>os.path.exists\<close>, a parameter \<open>path_exists\<close>.
  \<open>tsne\<close> and \<open>get_life_stats\<close> are defined in \<open>graph_gen\<close>, which is not among the
  sources at hand: they are parameters of the handlers, and the handlers read their
  answer \<open>-1\<close> as "nothing to show".
\<close>

datatype jvalue = JInt int | JReal real | JStr string | JList "jvalue list"

type_synonym json = "(string \<times> jvalue) list"

text \<open>
  \<open>BadRequestKeyError\<close>: the form has no field of the name read.  \<open>NoResponse\<close>: the
  view function falls through and returns nothing.
\<close>

datatype http_error = BadRequestKeyError | NoResponse

record request =
  req_method :: string
  req_form :: "string \<rightharpoonup> string"

text \<open>\<open>os.path.join\<close> of two components, on a POSIX system.\<close>

definition os_path_join :: "string \<Rightarrow> string \<Rightarrow> string" where
  "os_path_join a b =
     (if b \<noteq> [] \<and> hd b = CHR ''/'' then b
      else if a = [] \<or> last a = CHR ''/'' then a @ b
      else a @ ''/'' @ b)"

text \<open>Python's \<open>v == -1\<close> on a value that may be a number or anything else.\<close>

fun eq_minus_one :: "jvalue \<Rightarrow> bool" where
  "eq_minus_one (JInt i) = (i = - 1)"
| "eq_minus_one (JReal r) = (r = - 1)"
| "eq_minus_one (JStr s) = False"
| "eq_minus_one (JList vs) = False"

definition groups :: "(string \<Rightarrow> bool) \<Rightarrow> (string \<Rightarrow> jvalue) \<Rightarrow> request \<Rightarrow> http_error + json" where
  "groups path_exists tsne req =
     (if req_method req = ''POST'' then
        (case req_form req ''location'' of
           None \<Rightarrow> Inl BadRequestKeyError
         | Some location \<Rightarrow>
             if \<not> path_exists location then
               Inr [(''title'', JStr ''Error''),
                    (''text'', JStr (''The location '' @ location @ '' does not exist'')),
                    (''icon'', JStr ''error'')]
             else if \<not> path_exists (os_path_join location ''Embeddings'') then
               Inr [(''title'', JStr ''Error''),
                    (''text'', JStr (''The location '' @ location @ '' does not have any embeddings'')),
                    (''icon'', JStr ''error'')]
             else
               (let coord = tsne location in
                if eq_minus_one coord then
                  Inr [(''title'', JStr ''Error''),
                       (''text'', JStr (''The location '' @ location @ '' does not have any embeddings'')),
                       (''icon'', JStr ''error'')]
                else
                  Inr [(''title'', JStr ''Success''),
                       (''text'', JStr ''Groups generated successfully''),
                       (''icon'', JStr ''success''), (''coord'', coord)]))
      else Inl NoResponse)"

definition stats :: "(string \<Rightarrow> bool) \<Rightarrow> (string \<Rightarrow> jvalue \<times> jvalue \<times> jvalue) \<Rightarrow> request \<Rightarrow> http_error + json" where
  "stats path_exists get_life_stats req =
     (if req_method req = ''POST'' then
        (case req_form req ''location'' of
           None \<Rightarrow> Inl BadRequestKeyError
         | Some location \<Rightarrow>
             if \<not> path_exists location then
               Inr [(''title'', JStr ''Error''),
                    (''text'', JStr (''The location '' @ location @ '' does not exist'')),
                    (''icon'', JStr ''error'')]
             else
               (case get_life_stats location of
                  (mean, variance, qof) \<Rightarrow>
                    if eq_minus_one mean \<and> eq_minus_one variance \<and> eq_minus_one qof then
                      Inr [(''title'', JStr ''Error''),
                           (''text'', JStr (''The location '' @ location @ '' does not have any log files'')),
                           (''icon'', JStr ''error'')]
                    else
                      Inr [(''title'', JStr ''Success''),
                           (''text'', JStr ''Stats generated successfully''),
                           (''icon'', JStr ''success''), (''mean'', mean),
                           (''variance'', variance), (''qof'', qof)]))
      else Inl NoResponse)"

text \<open>The structured error object the handlers answer with when there is nothing to show.\<close>

definition no_data_result :: "json \<Rightarrow> bool" where
  "no_data_result r \<longleftrightarrow>
     map_of r ''title'' = Some (JStr ''Error'') \<and> map_of r ''icon'' = Some (JStr ''error'')"

section \<open>Properties of the layers\<close>

lemma linear_apply_length:
  assumes "linear_shaped l" and "linear_apply l x = Inr y"
  shows "length y = out_features l"
  using assms by (auto simp: linear_apply_def linear_shaped_def split: if_splits)

lemma sum_list_exp_pos:
  fixes xs :: "real list"
  shows "xs \<noteq> [] \<Longrightarrow> (0::real) < sum_list (map exp xs)"
proof (induction xs)
  case Nil
  then show ?case by simp
next
  case (Cons x xs)
  have "(0::real) \<le> sum_list (map exp xs)"
    by (rule sum_list_nonneg) auto
  moreover have "(0::real) < exp x" by simp
  ultimately show ?case by (simp add: add_pos_nonneg)
qed

lemma softmax_length: "length (softmax xs) = length xs"
  by (simp add: softmax_def)

lemma softmax_pos:
  assumes "p \<in> set (softmax xs)"
  shows "0 < p"
proof -
  from assms obtain x where x: "x \<in> set xs" and p: "p = exp x / sum_list (map exp xs)"
    by (auto simp: softmax_def)
  from x have "xs \<noteq> []" by auto
  then have "0 < sum_list (map exp xs)" by (rule sum_list_exp_pos)
  with p show ?thesis by simp
qed

lemma softmax_sum:
  assumes "xs \<noteq> []"
  shows "sum_list (softmax xs) = 1"
proof -
  let ?S = "sum_list (map exp xs)"
  have pos: "0 < ?S" using assms by (rule sum_list_exp_pos)
  have "sum_list (softmax xs) = sum_list (map (\<lambda>x. exp x * inverse ?S) xs)"
    by (simp add: softmax_def divide_inverse)
  also have "\<dots> = sum_list (map exp xs) * inverse ?S"
    by (simp add: sum_list_mult_const)
  also have "\<dots> = 1" using pos by simp
  finally show ?thesis .
qed

lemma forward_wrong_length:
  "length x \<noteq> in_features (fc1 ag) \<Longrightarrow> forward ag x = Inl ShapeError"
  by (simp add: forward_def linear_apply_def)

lemma forward_ok:
  assumes sh: "agent_shaped s a h ag" and len: "length x = s"
  shows "\<exists>pre lg. linear_apply (fc1 ag) x = Inr pre \<and> length pre = h \<and>
           linear_apply (fc2 ag) (map relu pre) = Inr lg \<and> length lg = a \<and>
           forward ag x = Inr (softmax lg, pre)"
proof -
  from sh have s1: "linear_shaped (fc1 ag)" and s2: "linear_shaped (fc2 ag)"
    and i1: "in_features (fc1 ag) = s" and o1: "out_features (fc1 ag) = h"
    and i2: "in_features (fc2 ag) = h" and o2: "out_features (fc2 ag) = a"
    by (simp_all add: agent_shaped_def)
  define pre where "pre = map2 (\<lambda>row b. dot row x + b) (weight (fc1 ag)) (bias (fc1 ag))"
  have p: "linear_apply (fc1 ag) x = Inr pre"
    using len i1 by (simp add: linear_apply_def pre_def)
  have lp: "length pre = h"
    using linear_apply_length [OF s1 p] o1 by simp
  define lg where "lg = map2 (\<lambda>row b. dot row (map relu pre) + b) (weight (fc2 ag)) (bias (fc2 ag))"
  have l: "linear_apply (fc2 ag) (map relu pre) = Inr lg"
    using lp i2 by (simp add: linear_apply_def lg_def)
  have ll: "length lg = a"
    using linear_apply_length [OF s2 l] o2 by simp
  have "forward ag x = Inr (softmax lg, pre)"
    by (simp add: forward_def p l)
  with p lp l ll show ?thesis by blast
qed

section \<open>The library routines\<close>

lemma take_sort_ranks:
  assumes d: "distinct p" and s: "set p = {..<length xs}" and k: "k \<le> length xs"
  shows "ranks_top xs k (take k (sort_key (\<lambda>i. - (xs ! i)) p))"
proof -
  let ?f = "\<lambda>i. - (xs ! i)"
  let ?s = "sort_key ?f p"
  have len: "length ?s = length xs"
    using d s distinct_card [of p] by simp
  have srt: "sorted_wrt (\<lambda>i j. ?f i \<le> ?f j) ?s"
    using sorted_sort_key [of ?f p] by (simp add: sorted_map)
  have split: "?s = take k ?s @ drop k ?s" by simp
  have 1: "length (take k ?s) = k" using len k by simp
  have 2: "distinct (take k ?s)" using d by (simp add: distinct_take)
  have 3: "\<forall>i\<in>set (take k ?s). i < length xs"
  proof
    fix i assume "i \<in> set (take k ?s)"
    then have "i \<in> set ?s" by (rule in_set_takeD)
    with s show "i < length xs" by simp
  qed
  have 4: "sorted_wrt (\<lambda>i j. xs ! j \<le> xs ! i) (take k ?s)"
    using sorted_wrt_take [OF srt, of k] by simp
  have cross: "\<forall>i\<in>set (take k ?s). \<forall>j\<in>set (drop k ?s). ?f i \<le> ?f j"
    using srt split sorted_wrt_append [of "\<lambda>i j. ?f i \<le> ?f j" "take k ?s" "drop k ?s"]
    by simp
  have 5: "\<forall>j<length xs. j \<notin> set (take k ?s) \<longrightarrow> (\<forall>i\<in>set (take k ?s). xs ! j \<le> xs ! i)"
  proof (intro allI impI ballI)
    fix j i
    assume j: "j < length xs" and nj: "j \<notin> set (take k ?s)" and i: "i \<in> set (take k ?s)"
    from j s have "j \<in> set ?s" by simp
    then have "j \<in> set (take k ?s) \<union> set (drop k ?s)"
      using set_append [of "take k ?s" "drop k ?s"] by simp
    with nj have "j \<in> set (drop k ?s)" by simp
    with cross i have "?f i \<le> ?f j" by blast
    then show "xs ! j \<le> xs ! i" by simp
  qed
  from 1 2 3 4 5 show ?thesis by (simp add: ranks_top_def)
qed

lemma topk_lo_contract: "topk_contract topk_lo"
  unfolding topk_contract_def
proof (intro allI impI)
  fix xs :: "real list" and k
  assume "k \<le> length xs"
  then have "ranks_top xs k (take k (sort_key (\<lambda>i. - (xs ! i)) [0..<length xs]))"
    by (intro take_sort_ranks) (simp_all add: atLeast0LessThan)
  then show "case topk_lo xs k of (vs, js) \<Rightarrow> vs = map (\<lambda>i. xs ! i) js \<and> ranks_top xs k js"
    by (simp add: topk_lo_def topk_by_def Let_def)
qed

lemma topk_hi_contract: "topk_contract topk_hi"
  unfolding topk_contract_def
proof (intro allI impI)
  fix xs :: "real list" and k
  assume "k \<le> length xs"
  then have "ranks_top xs k (take k (sort_key (\<lambda>i. - (xs ! i)) (rev [0..<length xs])))"
    by (intro take_sort_ranks) (simp_all add: atLeast0LessThan)
  then show "case topk_hi xs k of (vs, js) \<Rightarrow> vs = map (\<lambda>i. xs ! i) js \<and> ranks_top xs k js"
    by (simp add: topk_hi_def topk_by_def Let_def)
qed

lemma topk_contractD:
  assumes "topk_contract tk" and "k \<le> length xs"
  obtains js where "tk xs k = (map (\<lambda>i. xs ! i) js, js)" and "ranks_top xs k js"
  using assms unfolding topk_contract_def by (cases "tk xs k") fastforce

lemma ranks_top_nth_mono:
  assumes r: "ranks_top xs k js" and pq: "p \<le> q" and q: "q < k"
  shows "xs ! (js ! q) \<le> xs ! (js ! p)"
proof (cases "p = q")
  case True
  then show ?thesis by simp
next
  case False
  with pq have "p < q" by simp
  moreover from r q have "q < length js" by (simp add: ranks_top_def)
  moreover from r have "sorted_wrt (\<lambda>i j. xs ! j \<le> xs ! i) js" by (simp add: ranks_top_def)
  ultimately show ?thesis by (simp add: sorted_wrt_iff_nth_less)
qed

lemma ranks_top_first_max:
  assumes r: "ranks_top xs k js" and k: "0 < k" and j: "j < length xs"
  shows "xs ! j \<le> xs ! (js ! 0)"
proof (cases "j \<in> set js")
  case True
  then obtain q where q: "q < length js" and jq: "js ! q = j"
    by (auto simp: in_set_conv_nth)
  from r q have "q < k" by (simp add: ranks_top_def)
  from ranks_top_nth_mono [OF r _ this, of 0] jq show ?thesis by simp
next
  case False
  from r k have "js ! 0 \<in> set js" by (simp add: ranks_top_def)
  with r j False show ?thesis by (simp add: ranks_top_def)
qed

lemma ranks_top_last_min:
  assumes r: "ranks_top xs (Suc n) js" and i: "i \<in> set js"
  shows "xs ! (js ! n) \<le> xs ! i"
proof -
  from i obtain p where p: "p < length js" and ip: "js ! p = i"
    by (auto simp: in_set_conv_nth)
  from r p have "p \<le> n" by (simp add: ranks_top_def)
  from ranks_top_nth_mono [OF r this, of ] ip show ?thesis by simp
qed

section \<open>The three selection modes of act\<close>

lemma act_wrong_length:
  "length state \<noteq> in_features (fc1 ag) \<Longrightarrow> act tk drawn ag state topk is_rebel = Inl ShapeError"
  by (simp add: act_def forward_wrong_length)

lemma ranks_top_last:
  assumes "ranks_top xs (Suc n) js"
  shows "last js = js ! n" and "js \<noteq> []"
proof -
  from assms have len: "length js = Suc n" by (simp add: ranks_top_def)
  then show ne: "js \<noteq> []" by auto
  from ne len show "last js = js ! n" by (simp add: last_conv_nth)
qed

lemma act_rebel:
  assumes c: "topk_contract tk" and f: "forward ag state = Inr (probs, emb)"
    and n: "13 \<le> length probs"
  shows "\<exists>js. act tk drawn ag state topk True =
             Inr (js, js ! 12, map (\<lambda>i. ln (probs ! i)) js, emb) \<and> ranks_top probs 13 js"
proof -
  from c n obtain js where tk: "tk probs 13 = (map (\<lambda>i. probs ! i) js, js)"
    and r: "ranks_top probs 13 js"
    by (rule topk_contractD)
  from r have "ranks_top probs (Suc 12) js" by simp
  then have l: "last js = js ! 12" and ne: "js \<noteq> []" by (rule ranks_top_last)+
  have "act tk drawn ag state topk True = Inr (js, js ! 12, map (\<lambda>i. ln (probs ! i)) js, emb)"
    using n by (simp add: act_def f torch_topk_def tk l ne comp_def)
  with r show ?thesis by blast
qed

lemma act_rebel_fail:
  assumes f: "forward ag state = Inr (probs, emb)" and n: "length probs < 13"
  shows "act tk drawn ag state topk True = Inl InvalidConfigError"
  using n by (simp add: act_def f torch_topk_def)

lemma act_topk:
  assumes c: "topk_contract tk" and f: "forward ag state = Inr (probs, emb)"
    and k1: "1 < topk" and k2: "topk \<le> int (length probs)"
  shows "\<exists>js. act tk drawn ag state topk False =
             Inr (js, js ! 0, map (\<lambda>i. ln (probs ! i)) js, emb) \<and>
             ranks_top probs (nat topk) js"
proof -
  from k2 have "nat topk \<le> length probs" by simp
  with c obtain js where tk: "tk probs (nat topk) = (map (\<lambda>i. probs ! i) js, js)"
    and r: "ranks_top probs (nat topk) js"
    by (rule topk_contractD)
  from r k1 have ne: "js \<noteq> []" by (auto simp: ranks_top_def)
  then have h: "hd js = js ! 0" by (simp add: hd_conv_nth)
  have "act tk drawn ag state topk False =
          Inr (js, js ! 0, map (\<lambda>i. ln (probs ! i)) js, emb)"
    using k1 k2 by (simp add: act_def f torch_topk_def tk h ne comp_def)
  with r show ?thesis by blast
qed

lemma act_topk_fail:
  assumes f: "forward ag state = Inr (probs, emb)"
    and k1: "1 < topk" and k2: "int (length probs) < topk"
  shows "act tk drawn ag state topk False = Inl InvalidConfigError"
  using k1 k2 by (simp add: act_def f torch_topk_def)

lemma act_stochastic:
  assumes f: "forward ag state = Inr (probs, emb)"
    and k: "topk \<le> 1" and d: "drawn < length probs" and s: "sum_list probs = 1"
  shows "act tk drawn ag state topk False = Inr ([drawn], drawn, [ln (probs ! drawn)], emb)"
  using k d by (simp add: act_def f Categorical_def log_prob_def s)

lemma act_embedding:
  assumes f: "forward ag state = Inr (probs, e)"
    and r: "act tk drawn ag state topk is_rebel = Inr (acts, chosen, lps, emb)"
  shows "emb = e"
  using r by (auto simp: act_def f Let_def split: sum.splits prod.splits if_splits)

lemma act_topk_library:
  assumes c: "topk_contract tk" and f: "forward ag state = Inr (probs, emb)"
    and k1: "1 < topk" and k2: "topk \<le> int (length probs)"
  shows "act tk drawn ag state topk False =
           Inr (snd (tk probs (nat topk)), snd (tk probs (nat topk)) ! 0,
                map (\<lambda>i. ln (probs ! i)) (snd (tk probs (nat topk))), emb) \<and>
         ranks_top probs (nat topk) (snd (tk probs (nat topk)))"
proof -
  from k2 have "nat topk \<le> length probs" by simp
  with c obtain js where tk: "tk probs (nat topk) = (map (\<lambda>i. probs ! i) js, js)"
    and r: "ranks_top probs (nat topk) js"
    by (rule topk_contractD)
  from r k1 have ne: "js \<noteq> []" by (auto simp: ranks_top_def)
  then have h: "hd js = js ! 0" by (simp add: hd_conv_nth)
  have "act tk drawn ag state topk False =
          Inr (js, js ! 0, map (\<lambda>i. ln (probs ! i)) js, emb)"
    using k1 k2 by (simp add: act_def f torch_topk_def tk h ne comp_def)
  with r tk show ?thesis by simp
qed

section \<open>The concrete agents evaluated\<close>

lemma example_agent_shaped: "agent_shaped 4 5 3 example_agent"
  by (simp add: agent_shaped_def linear_shaped_def example_agent_def)

lemma rebel_agent_shaped: "agent_shaped 1 13 1 rebel_agent"
  by (simp add: agent_shaped_def linear_shaped_def rebel_agent_def)

lemma example_forward:
  "forward example_agent example_state = Inr ([1/10, 3/10, 1/20, 9/20, 1/10], [-1, 2, 0])"
  by (simp add: forward_def linear_apply_def example_agent_def example_state_def dot_def
      relu_def softmax_def)

lemma rebel_forward:
  "forward rebel_agent [1] =
     Inr ([1/91, 2/91, 3/91, 4/91, 5/91, 6/91, 7/91, 8/91, 9/91, 10/91, 11/91, 12/91, 13/91], [1])"
  by (simp add: forward_def linear_apply_def rebel_agent_def dot_def relu_def softmax_def)

lemma example_ranking_unique:
  assumes r: "ranks_top [1/10, 3/10, 1/20, 9/20, 1/10] 2 js"
  shows "js = [3, 1]"
proof -
  let ?xs = "[1/10, 3/10, 1/20, 9/20, 1/10 :: real]"
  from r have len: "length js = 2" by (simp add: ranks_top_def)
  then obtain p q where js: "js = [p, q]"
    by (cases js; cases "tl js") auto
  from r js have pq: "p \<noteq> q" and p5: "p < 5" and q5: "q < 5"
    and ord: "?xs ! q \<le> ?xs ! p"
    and out: "\<And>j. j < 5 \<Longrightarrow> j \<noteq> p \<Longrightarrow> j \<noteq> q \<Longrightarrow> ?xs ! j \<le> ?xs ! p \<and> ?xs ! j \<le> ?xs ! q"
    by (auto simp: ranks_top_def)
  from p5 have pc: "p = 0 \<or> p = 1 \<or> p = 2 \<or> p = 3 \<or> p = 4" by arith
  from q5 have qc: "q = 0 \<or> q = 1 \<or> q = 2 \<or> q = 3 \<or> q = 4" by arith
  have p3: "p = 3"
  proof (rule ccontr)
    assume np: "p \<noteq> 3"
    show False
    proof (cases "q = 3")
      case True
      with ord pc np show False by auto
    next
      case False
      with out [of 3] np have "?xs ! 3 \<le> ?xs ! p" by simp
      with pc np show False by auto
    qed
  qed
  have q1: "q = 1"
  proof (rule ccontr)
    assume nq: "q \<noteq> 1"
    with out [of 1] p3 have "?xs ! 1 \<le> ?xs ! q" by simp
    with qc nq p3 pq show False by auto
  qed
  from js p3 q1 show ?thesis by simp
qed

lemma rebel_act:
  "act topk_lo drawn rebel_agent [1] topk True =
     Inr ([12, 11, 10, 9, 8, 7, 6, 5, 4, 3, 2, 1, 0], 0,
          [ln (13/91), ln (12/91), ln (11/91), ln (10/91), ln (9/91), ln (8/91), ln (7/91),
           ln (6/91), ln (5/91), ln (4/91), ln (3/91), ln (2/91), ln (1/91)], [1])"
  by (simp add: act_def rebel_forward torch_topk_def topk_lo_def topk_by_def upt_conv_Cons)

lemma example_act_topk:
  "act topk_lo drawn example_agent example_state 2 False =
     Inr ([3, 1], 3, [ln (9/20), ln (3/10)], [-1, 2, 0])"
  by (simp add: act_def example_forward torch_topk_def topk_lo_def topk_by_def upt_conv_Cons)

lemma example_act_stochastic:
  "act topk_lo 4 example_agent example_state 1 False =
     Inr ([4], 4, [ln (1/10)], [-1, 2, 0])"
  by (simp add: act_def example_forward Categorical_def log_prob_def)

lemma example_act_top5:
  "act topk_hi drawn example_agent example_state 5 False =
     Inr ([3, 1, 4, 0, 2], 3, [ln (9/20), ln (3/10), ln (1/10), ln (1/10), ln (1/20)],
          [-1, 2, 0])"
  by (simp add: act_def example_forward torch_topk_def topk_hi_def topk_by_def upt_conv_Cons)

lemma example_fc1:
  "linear_apply (fc1 example_agent) example_state = Inr [-1, 2, 0]"
  by (simp add: linear_apply_def example_agent_def example_state_def dot_def)

lemma index_stableD:
  assumes "index_stable xs js" and "p < q" and "q < length js"
    and "xs ! (js ! p) = xs ! (js ! q)"
  shows "js ! p < js ! q"
  using assms unfolding index_stable_def by (meson less_trans)

lemma example_top5_not_stable:
  "\<not> index_stable [1/10, 3/10, 1/20, 9/20, 1/10] [3, 1, 4, 0, 2]"
proof
  assume a: "index_stable [1/10, 3/10, 1/20, 9/20, 1/10 :: real] [3, 1, 4, 0, 2]"
  have "[3, 1, 4, 0, 2 :: nat] ! 2 < [3, 1, 4, 0, 2] ! 3"
    by (rule index_stableD [OF a]) simp_all
  then show False by simp
qed

section \<open>The distribution and the embedding\<close>

lemma forward_distribution_aux:
  assumes sh: "agent_shaped s a h ag" and len: "length state = s" and a: "0 < a"
  shows "\<exists>probs emb. forward ag state = Inr (probs, emb) \<and> length probs = a \<and>
           length emb = h \<and> (\<forall>p\<in>set probs. 0 < p) \<and> sum_list probs = 1"
proof -
  from forward_ok [OF sh len] obtain pre lg where
    lp: "length pre = h" and ll: "length lg = a" and f: "forward ag state = Inr (softmax lg, pre)"
    by blast
  from ll a have ne: "lg \<noteq> []" by auto
  have "length (softmax lg) = a" using ll by (simp add: softmax_length)
  moreover have "\<forall>p\<in>set (softmax lg). 0 < p" by (blast intro: softmax_pos)
  moreover have "sum_list (softmax lg) = 1" using ne by (rule softmax_sum)
  ultimately show ?thesis using f lp by blast
qed

section \<open>Claims about the agent\<close>

text \<open>
  C5: for every input state whose length differs from the configured \<open>s_size\<close>,
  evaluation fails with the shape error, raised by the first layer before anything else
  is computed, and no decision record is returned: both \<open>forward\<close> and \<open>act\<close>, in every
  selection mode and for every \<open>topk\<close>, return the error.
\<close>

theorem act_shape_error:
  assumes "agent_shaped s_size a_size h_size ag" and "length state \<noteq> s_size"
  shows "forward ag state = Inl ShapeError \<and>
         act tk drawn ag state topk is_rebel = Inl ShapeError"
proof -
  from assms have "length state \<noteq> in_features (fc1 ag)"
    by (simp add: agent_shaped_def)
  then show ?thesis
    by (simp add: forward_wrong_length act_wrong_length)
qed

theorem act_shape_error_witness:
  "agent_shaped 4 5 3 example_agent \<and> length [1, 2 :: real] \<noteq> 4 \<and>
   forward example_agent [1, 2] = Inl ShapeError \<and>
   act topk_lo 0 example_agent [1, 2] 2 False = Inl ShapeError \<and>
   act topk_lo 0 example_agent [1, 2] 2 True = Inl ShapeError \<and>
   act topk_lo 0 example_agent [1, 2] 1 False = Inl ShapeError"
proof -
  have l: "length [1, 2 :: real] \<noteq> 4" by simp
  show ?thesis
    using example_agent_shaped l
      act_shape_error [OF example_agent_shaped l, of topk_lo 0 2 False]
      act_shape_error [OF example_agent_shaped l, of topk_lo 0 2 True]
      act_shape_error [OF example_agent_shaped l, of topk_lo 0 1 False]
    by simp
qed

text \<open>
  C6: for every state vector of length \<open>s_size\<close>, the distribution returned by \<open>forward\<close>
  is a sequence of exactly \<open>a_size\<close> non-negative reals whose entries sum to one, exactly,
  over real arithmetic (for an agent with at least one action).
\<close>

theorem forward_distribution:
  assumes "agent_shaped s_size a_size h_size ag" and "length state = s_size" and "0 < a_size"
  shows "\<exists>probs emb. forward ag state = Inr (probs, emb) \<and> length probs = a_size \<and>
           (\<forall>p\<in>set probs. 0 \<le> p) \<and> sum_list probs = 1"
proof -
  from forward_distribution_aux [OF assms] obtain probs emb where
    "forward ag state = Inr (probs, emb)" "length probs = a_size"
    "\<forall>p\<in>set probs. 0 < p" "sum_list probs = 1"
    by blast
  moreover from this have "\<forall>p\<in>set probs. 0 \<le> p" by (simp add: less_imp_le)
  ultimately show ?thesis by blast
qed

theorem forward_distribution_witness:
  "agent_shaped 4 5 3 example_agent \<and> length example_state = 4 \<and> (0::nat) < 5 \<and>
   forward example_agent example_state = Inr ([1/10, 3/10, 1/20, 9/20, 1/10], [-1, 2, 0]) \<and>
   sum_list [1/10, 3/10, 1/20, 9/20, 1/10 :: real] = 1"
proof -
  have l: "length example_state = 4" by (simp add: example_state_def)
  have p: "(0::nat) < 5" by simp
  from forward_distribution [OF example_agent_shaped l p]
  have "sum_list [1/10, 3/10, 1/20, 9/20, 1/10 :: real] = 1"
    by (simp add: example_forward)
  with example_agent_shaped l example_forward show ?thesis by simp
qed

text \<open>
  C10: with \<open>is_rebel\<close> true the result of \<open>act\<close> does not depend on \<open>topk\<close>: for any two
  values of \<open>topk\<close> the action list, the chosen action, the log-probabilities and the
  embedding are identical (and so is a failure).
\<close>

theorem rebel_ignores_topk:
  "act tk drawn ag state topk1 True = act tk drawn ag state topk2 True"
  by (simp add: act_def split: sum.split prod.split)

theorem rebel_ignores_topk_witness:
  "act topk_lo 0 rebel_agent [1] 2 True = act topk_lo 0 rebel_agent [1] 100 True"
  by (rule rebel_ignores_topk)

text \<open>
  C1: for every state and any \<open>topk\<close>, \<open>act\<close> with \<open>is_rebel\<close> true selects the top 13
  actions ranked by probability in descending order, returns that ranked index list of
  exactly 13 indices as the action output, designates the lowest-ranked of the 13 (the
  element at position 12) as the chosen action, and returns the natural logarithm of
  each of the 13 selected probabilities.  (The agent has at least 13 actions and the
  state has length \<open>s_size\<close>; the selection is the library's top-k.)
\<close>

theorem rebel_top13:
  assumes c: "topk_contract tk" and sh: "agent_shaped s_size a_size h_size ag"
    and len: "length state = s_size" and a: "13 \<le> a_size"
  shows "\<exists>probs emb js.
           forward ag state = Inr (probs, emb) \<and>
           act tk drawn ag state topk True =
             Inr (js, js ! 12, map (\<lambda>i. ln (probs ! i)) js, emb) \<and>
           length js = 13 \<and> ranks_top probs 13 js \<and>
           (\<forall>i\<in>set js. probs ! (js ! 12) \<le> probs ! i)"
proof -
  from a have "0 < a_size" by simp
  from forward_distribution_aux [OF sh len this] obtain probs emb where
    f: "forward ag state = Inr (probs, emb)" and lp: "length probs = a_size"
    by blast
  from a lp have "13 \<le> length probs" by simp
  from act_rebel [OF c f this] obtain js where
    r: "act tk drawn ag state topk True = Inr (js, js ! 12, map (\<lambda>i. ln (probs ! i)) js, emb)"
    and t: "ranks_top probs 13 js"
    by blast
  from t have l: "length js = 13" by (simp add: ranks_top_def)
  from t have "ranks_top probs (Suc 12) js" by simp
  then have "\<forall>i\<in>set js. probs ! (js ! 12) \<le> probs ! i"
    by (blast intro: ranks_top_last_min)
  with f r t l show ?thesis by blast
qed

theorem rebel_top13_witness:
  "topk_contract topk_lo \<and> agent_shaped 1 13 1 rebel_agent \<and> length [1::real] = 1 \<and>
   act topk_lo 0 rebel_agent [1] 2 True =
     Inr ([12, 11, 10, 9, 8, 7, 6, 5, 4, 3, 2, 1, 0], 0,
          [ln (13/91), ln (12/91), ln (11/91), ln (10/91), ln (9/91), ln (8/91), ln (7/91),
           ln (6/91), ln (5/91), ln (4/91), ln (3/91), ln (2/91), ln (1/91)], [1])"
proof -
  have l: "length [1::real] = 1" by simp
  have a: "(13::nat) \<le> 13" by simp
  from rebel_top13 [OF topk_lo_contract rebel_agent_shaped l a, of 0 2]
  have "act topk_lo 0 rebel_agent [1] 2 True =
     Inr ([12, 11, 10, 9, 8, 7, 6, 5, 4, 3, 2, 1, 0], 0,
          [ln (13/91), ln (12/91), ln (11/91), ln (10/91), ln (9/91), ln (8/91), ln (7/91),
           ln (6/91), ln (5/91), ln (4/91), ln (3/91), ln (2/91), ln (1/91)], [1])"
    by (simp only: rebel_act)
  with topk_lo_contract rebel_agent_shaped l show ?thesis by simp
qed

text \<open>
  C2: for every state, when \<open>topk > 1\<close> (at most \<open>a_size\<close>) and \<open>is_rebel\<close> is false, \<open>act\<close>
  returns the \<open>topk\<close> highest-probability action indices in descending order of
  probability, the highest-probability index as the chosen action, and the logarithm
  of each selected probability; for the distribution \<open>[0.1, 0.3, 0.05, 0.45, 0.1]\<close> and
  \<open>topk = 2\<close> the ranked indices are \<open>[3, 1]\<close>, the chosen action is \<open>3\<close> and the
  log-probabilities are \<open>[ln 0.45, ln 0.3]\<close>, whatever top-k routine meets the library's
  description.
\<close>

theorem topk_mode:
  assumes c: "topk_contract tk" and sh: "agent_shaped s_size a_size h_size ag"
    and len: "length state = s_size" and k1: "1 < topk" and k2: "topk \<le> int a_size"
  shows "(\<exists>probs emb js.
           forward ag state = Inr (probs, emb) \<and>
           act tk drawn ag state topk False =
             Inr (js, js ! 0, map (\<lambda>i. ln (probs ! i)) js, emb) \<and>
           ranks_top probs (nat topk) js \<and>
           (\<forall>j<a_size. probs ! j \<le> probs ! (js ! 0))) \<and>
         forward example_agent example_state = Inr ([0.1, 0.3, 0.05, 0.45, 0.1], [-1, 2, 0]) \<and>
         act tk drawn example_agent example_state 2 False =
           Inr ([3, 1], 3, [ln 0.45, ln 0.3], [-1, 2, 0])"
proof -
  from k1 k2 have "0 < a_size" by simp
  from forward_distribution_aux [OF sh len this] obtain probs emb where
    f: "forward ag state = Inr (probs, emb)" and lp: "length probs = a_size"
    by blast
  from k2 lp have "topk \<le> int (length probs)" by simp
  from act_topk [OF c f k1 this] obtain js where
    r: "act tk drawn ag state topk False = Inr (js, js ! 0, map (\<lambda>i. ln (probs ! i)) js, emb)"
    and t: "ranks_top probs (nat topk) js"
    by blast
  from k1 have "0 < nat topk" by simp
  with t lp have "\<forall>j<a_size. probs ! j \<le> probs ! (js ! 0)"
    by (blast intro: ranks_top_first_max)
  with f r t have general: "\<exists>probs emb js.
           forward ag state = Inr (probs, emb) \<and>
           act tk drawn ag state topk False =
             Inr (js, js ! 0, map (\<lambda>i. ln (probs ! i)) js, emb) \<and>
           ranks_top probs (nat topk) js \<and>
           (\<forall>j<a_size. probs ! j \<le> probs ! (js ! 0))"
    by blast
  have ef: "forward example_agent example_state = Inr ([0.1, 0.3, 0.05, 0.45, 0.1], [-1, 2, 0])"
    using example_forward by simp
  have "(1::int) < 2" and "(2::int) \<le> int (length [1/10, 3/10, 1/20, 9/20, 1/10 :: real])"
    by simp_all
  from act_topk [OF c example_forward this] obtain ks where
    er: "act tk drawn example_agent example_state 2 False =
           Inr (ks, ks ! 0, map (\<lambda>i. ln ([1/10, 3/10, 1/20, 9/20, 1/10] ! i)) ks, [-1, 2, 0])"
    and et: "ranks_top [1/10, 3/10, 1/20, 9/20, 1/10] (nat 2) ks"
    by blast
  from et have "ranks_top [1/10, 3/10, 1/20, 9/20, 1/10] 2 ks" by simp
  then have "ks = [3, 1]" by (rule example_ranking_unique)
  with er have "act tk drawn example_agent example_state 2 False =
           Inr ([3, 1], 3, [ln 0.45, ln 0.3], [-1, 2, 0])"
    by simp
  with general ef show ?thesis by blast
qed

theorem topk_mode_witness:
  "topk_contract topk_lo \<and> agent_shaped 4 5 3 example_agent \<and> length example_state = 4 \<and>
   (1::int) < 2 \<and> (2::int) \<le> int 5 \<and>
   act topk_lo 0 example_agent example_state 2 False =
     Inr ([3, 1], 3, [ln 0.45, ln 0.3], [-1, 2, 0])"
proof -
  have l: "length example_state = 4" by (simp add: example_state_def)
  have k1: "(1::int) < 2" and k2: "(2::int) \<le> int 5" by simp_all
  from topk_mode [OF topk_lo_contract example_agent_shaped l k1 k2, of 0]
  have "act topk_lo 0 example_agent example_state 2 False =
     Inr ([3, 1], 3, [ln 0.45, ln 0.3], [-1, 2, 0])"
    by blast
  with topk_lo_contract example_agent_shaped l show ?thesis by simp
qed

text \<open>
  C3, as the code has it: for a state of length \<open>s_size\<close> (and an agent with at least one
  action), \<open>act\<close> fails with the configuration error, and returns no decision record,
  when \<open>is_rebel\<close> is false and \<open>topk > a_size\<close>, or when \<open>is_rebel\<close> is true and
  \<open>a_size < 13\<close>.  With \<open>is_rebel\<close> true, \<open>topk\<close> is never read.
\<close>

theorem act_invalid_config:
  assumes sh: "agent_shaped s_size a_size h_size ag" and len: "length state = s_size"
    and a: "0 < a_size"
    and bad: "(\<not> is_rebel \<and> int a_size < topk) \<or> (is_rebel \<and> a_size < 13)"
  shows "act tk drawn ag state topk is_rebel = Inl InvalidConfigError"
proof -
  from forward_distribution_aux [OF sh len a] obtain probs emb where
    f: "forward ag state = Inr (probs, emb)" and lp: "length probs = a_size"
    by blast
  show ?thesis
  proof (cases is_rebel)
    case True
    with bad lp have "length probs < 13" by simp
    from act_rebel_fail [OF f this] True show ?thesis by simp
  next
    case False
    with bad have k: "int a_size < topk" by simp
    with a have "1 < topk" by simp
    moreover from k lp have "int (length probs) < topk" by simp
    ultimately have "act tk drawn ag state topk False = Inl InvalidConfigError"
      by (rule act_topk_fail [OF f])
    with False show ?thesis by simp
  qed
qed

theorem act_invalid_config_witness:
  "agent_shaped 4 5 3 example_agent \<and> length example_state = 4 \<and> (0::nat) < 5 \<and>
   act topk_lo 0 example_agent example_state 6 False = Inl InvalidConfigError \<and>
   act topk_lo 0 example_agent example_state 2 True = Inl InvalidConfigError"
proof -
  have l: "length example_state = 4" by (simp add: example_state_def)
  have p: "(0::nat) < 5" by simp
  have b1: "(\<not> False \<and> int 5 < 6) \<or> (False \<and> (5::nat) < 13)" by simp
  have b2: "(\<not> True \<and> int 5 < 2) \<or> (True \<and> (5::nat) < 13)" by simp
  from act_invalid_config [OF example_agent_shaped l p b1, of topk_lo 0]
    act_invalid_config [OF example_agent_shaped l p b2, of topk_lo 0]
    example_agent_shaped l
  show ?thesis by simp
qed

text \<open>
  C3 as stated ("with \<open>topk > a_size\<close> ... always fails") does not hold: with \<open>is_rebel\<close>
  true and thirteen actions, \<open>topk = 14 > a_size\<close> yields the thirteen ranked actions.
\<close>

theorem rebel_large_topk_succeeds:
  "agent_shaped 1 13 1 rebel_agent \<and> length [1::real] = 1 \<and> int 13 < 14 \<and>
   act topk_lo 0 rebel_agent [1] 14 True =
     Inr ([12, 11, 10, 9, 8, 7, 6, 5, 4, 3, 2, 1, 0], 0,
          [ln (13/91), ln (12/91), ln (11/91), ln (10/91), ln (9/91), ln (8/91), ln (7/91),
           ln (6/91), ln (5/91), ln (4/91), ln (3/91), ln (2/91), ln (1/91)], [1]) \<and>
   act topk_lo 0 rebel_agent [1] 14 True \<noteq> Inl InvalidConfigError"
proof -
  have "act topk_lo 0 rebel_agent [1] 14 True =
     Inr ([12, 11, 10, 9, 8, 7, 6, 5, 4, 3, 2, 1, 0], 0,
          [ln (13/91), ln (12/91), ln (11/91), ln (10/91), ln (9/91), ln (8/91), ln (7/91),
           ln (6/91), ln (5/91), ln (4/91), ln (3/91), ln (2/91), ln (1/91)], [1])"
    by (rule rebel_act)
  with rebel_agent_shaped show ?thesis by simp
qed

text \<open>
  C4: in every selection mode (stochastic, top-k, rebel), for every selected action index
  \<open>i\<close>, the log-probability returned by \<open>act\<close> is the natural logarithm of entry \<open>i\<close> of
  the distribution that \<open>forward\<close> produced for the same state; every selected index is
  below \<open>a_size\<close>.  (In stochastic mode the library divides by the sum of the
  distribution, which is one.)
\<close>

theorem log_probs_from_distribution:
  assumes c: "topk_contract tk" and sh: "agent_shaped s_size a_size h_size ag"
    and len: "length state = s_size" and a: "0 < a_size"
    and f: "forward ag state = Inr (probs, emb)"
    and r: "act tk drawn ag state topk is_rebel = Inr (acts, chosen, lps, emb')"
  shows "lps = map (\<lambda>i. ln (probs ! i)) acts \<and> (\<forall>i\<in>set acts. i < a_size) \<and>
         chosen \<in> set acts \<and> emb' = emb"
proof -
  from forward_distribution_aux [OF sh len a] f have
    lp: "length probs = a_size" and sm: "sum_list probs = 1"
    by auto
  show ?thesis
  proof (cases is_rebel)
    case True
    show ?thesis
    proof (cases "13 \<le> length probs")
      case False
      then have "length probs < 13" by simp
      from act_rebel_fail [OF f this, of tk drawn topk] r True show ?thesis by simp
    next
      case ge: True
      from act_rebel [OF c f ge, of drawn topk] obtain js where
        e: "act tk drawn ag state topk True =
              Inr (js, js ! 12, map (\<lambda>i. ln (probs ! i)) js, emb)"
        and t: "ranks_top probs 13 js"
        by blast
      from r True have "act tk drawn ag state topk True = Inr (acts, chosen, lps, emb')"
        by simp
      with e have "js = acts \<and> js ! 12 = chosen \<and>
          map (\<lambda>i. ln (probs ! i)) js = lps \<and> emb = emb'"
        by simp
      then have eq: "acts = js" "chosen = js ! 12"
        "lps = map (\<lambda>i. ln (probs ! i)) js" "emb' = emb"
        by auto
      from t lp have "\<forall>i\<in>set js. i < a_size" and "js ! 12 \<in> set js"
        by (simp_all add: ranks_top_def)
      with eq show ?thesis by simp
    qed
  next
    case nr: False
    show ?thesis
    proof (cases "1 < topk")
      case k1: True
      show ?thesis
      proof (cases "topk \<le> int (length probs)")
        case False
        then have "int (length probs) < topk" by simp
        from act_topk_fail [OF f k1 this, of tk drawn] r nr show ?thesis by simp
      next
        case k2: True
        from act_topk [OF c f k1 k2, of drawn] obtain js where
          e: "act tk drawn ag state topk False =
                Inr (js, js ! 0, map (\<lambda>i. ln (probs ! i)) js, emb)"
          and t: "ranks_top probs (nat topk) js"
          by blast
        from r nr have "act tk drawn ag state topk False = Inr (acts, chosen, lps, emb')"
          by simp
        with e have "js = acts \<and> js ! 0 = chosen \<and>
            map (\<lambda>i. ln (probs ! i)) js = lps \<and> emb = emb'"
          by simp
        then have eq: "acts = js" "chosen = js ! 0"
          "lps = map (\<lambda>i. ln (probs ! i)) js" "emb' = emb"
          by auto
        from t lp k1 have "\<forall>i\<in>set js. i < a_size" and "js ! 0 \<in> set js"
          by (simp_all add: ranks_top_def)
        with eq show ?thesis by simp
      qed
    next
      case False
      then have k: "topk \<le> 1" by simp
      show ?thesis
      proof (cases "drawn < length probs")
        case True
        from r nr have "act tk drawn ag state topk False = Inr (acts, chosen, lps, emb')"
          by simp
        with act_stochastic [OF f k True sm, of tk] have
          "[drawn] = acts \<and> drawn = chosen \<and> [ln (probs ! drawn)] = lps \<and> emb = emb'"
          by simp
        with lp True show ?thesis by auto
      next
        case False
        with k nr have "act tk drawn ag state topk is_rebel = Inl IndexError"
          by (simp add: act_def f Categorical_def log_prob_def)
        with r show ?thesis by simp
      qed
    qed
  qed
qed

theorem log_probs_from_distribution_witness:
  "topk_contract topk_lo \<and> agent_shaped 4 5 3 example_agent \<and> length example_state = 4 \<and>
   forward example_agent example_state = Inr ([1/10, 3/10, 1/20, 9/20, 1/10], [-1, 2, 0]) \<and>
   act topk_lo 4 example_agent example_state 2 False =
     Inr ([3, 1], 3, [ln (9/20), ln (3/10)], [-1, 2, 0]) \<and>
   [ln (9/20), ln (3/10)] = map (\<lambda>i. ln ([1/10, 3/10, 1/20, 9/20, 1/10 :: real] ! i)) [3, 1] \<and>
   act topk_lo 4 example_agent example_state 1 False =
     Inr ([4], 4, [ln (1/10)], [-1, 2, 0]) \<and>
   [ln (1/10)] = map (\<lambda>i. ln ([1/10, 3/10, 1/20, 9/20, 1/10 :: real] ! i)) [4]"
proof -
  have l: "length example_state = 4" by (simp add: example_state_def)
  have p: "(0::nat) < 5" by simp
  from log_probs_from_distribution
    [OF topk_lo_contract example_agent_shaped l p example_forward example_act_topk [of 4]]
  have 1: "[ln (9/20), ln (3/10)] = map (\<lambda>i. ln ([1/10, 3/10, 1/20, 9/20, 1/10 :: real] ! i)) [3, 1]"
    by (rule conjunct1)
  from log_probs_from_distribution
    [OF topk_lo_contract example_agent_shaped l p example_forward example_act_stochastic]
  have 2: "[ln (1/10)] = map (\<lambda>i. ln ([1/10, 3/10, 1/20, 9/20, 1/10 :: real] ! i)) [4]"
    by (rule conjunct1)
  from topk_lo_contract example_agent_shaped l example_forward
    example_act_topk [of 4] example_act_stochastic 1 2
  show ?thesis by (intro conjI)
qed

text \<open>
  C7: for every state of length \<open>s_size\<close>, the embedding returned by \<open>forward\<close> has length
  \<open>h_size\<close> and is the output of the first layer as it stands before the rectifier is
  applied (the second layer reads the rectified values, the embedding keeps the raw ones);
  \<open>act\<close> hands it on unchanged in every selection mode.  Values of the model are
  immutable, so the embedding is a snapshot; gradient bookkeeping has no counterpart
  here.
\<close>

theorem embedding_is_preactivation:
  assumes sh: "agent_shaped s_size a_size h_size ag" and len: "length state = s_size"
  shows "\<exists>pre lg.
           linear_apply (fc1 ag) state = Inr pre \<and> length pre = h_size \<and>
           linear_apply (fc2 ag) (map relu pre) = Inr lg \<and>
           forward ag state = Inr (softmax lg, pre) \<and>
           (\<forall>tk drawn topk is_rebel acts chosen lps emb.
              act tk drawn ag state topk is_rebel = Inr (acts, chosen, lps, emb) \<longrightarrow> emb = pre)"
proof -
  from forward_ok [OF sh len] obtain pre lg where
    p: "linear_apply (fc1 ag) state = Inr pre" and lp: "length pre = h_size"
    and l: "linear_apply (fc2 ag) (map relu pre) = Inr lg"
    and f: "forward ag state = Inr (softmax lg, pre)"
    by blast
  have "\<forall>tk drawn topk is_rebel acts chosen lps emb.
          act tk drawn ag state topk is_rebel = Inr (acts, chosen, lps, emb) \<longrightarrow> emb = pre"
    by (blast intro: act_embedding [OF f])
  with p lp l f show ?thesis by blast
qed

theorem embedding_is_preactivation_witness:
  "agent_shaped 4 5 3 example_agent \<and> length example_state = 4 \<and>
   linear_apply (fc1 example_agent) example_state = Inr [-1, 2, 0] \<and>
   map relu [-1, 2, 0] = [0, 2, 0] \<and>
   forward example_agent example_state = Inr ([1/10, 3/10, 1/20, 9/20, 1/10], [-1, 2, 0]) \<and>
   act topk_lo 4 example_agent example_state 2 False =
     Inr ([3, 1], 3, [ln (9/20), ln (3/10)], [-1, 2, 0]) \<and>
   act topk_lo 4 example_agent example_state 1 False =
     Inr ([4], 4, [ln (1/10)], [-1, 2, 0])"
proof -
  have l: "length example_state = 4" by (simp add: example_state_def)
  have r: "map relu [-1, 2, 0] = [0, 2, 0]" by (simp add: relu_def)
  from embedding_is_preactivation [OF example_agent_shaped l]
  have "linear_apply (fc1 example_agent) example_state = Inr [-1, 2, 0]"
    by (simp add: example_fc1)
  with example_agent_shaped l r example_forward example_act_topk [of 4] example_act_stochastic
  show ?thesis by (intro conjI)
qed

text \<open>
  C8 as stated (among actions of equal probability the lower index is ranked first) is
  not something \<open>act\<close> ensures: it returns the indices in the order the library's top-k
  delivers them.  For the agent of the example and \<open>topk = 5\<close>, actions \<open>0\<close> and \<open>4\<close> both
  have probability \<open>0.1\<close> and the ranking is \<open>[3, 1, 4, 0, 2]\<close>: action \<open>4\<close> comes before
  action \<open>0\<close>.
\<close>

theorem example_top5_tie_order:
  "topk_contract topk_hi \<and>
   forward example_agent example_state = Inr ([1/10, 3/10, 1/20, 9/20, 1/10], [-1, 2, 0]) \<and>
   act topk_hi 0 example_agent example_state 5 False =
     Inr ([3, 1, 4, 0, 2], 3, [ln (9/20), ln (3/10), ln (1/10), ln (1/10), ln (1/20)],
          [-1, 2, 0]) \<and>
   \<not> index_stable [1/10, 3/10, 1/20, 9/20, 1/10] [3, 1, 4, 0, 2]"
  using topk_hi_contract example_forward example_act_top5 [of 0] example_top5_not_stable
  by (intro conjI)

text \<open>
  C8, as the code has it: in top-k mode the ranking returned is exactly the index list
  of the library's top-k on the distribution, in non-increasing order of probability;
  \<open>act\<close> adds no tie-breaking of its own, so the order among actions of equal
  probability is the library's.
\<close>

theorem topk_ranking_order:
  assumes c: "topk_contract tk" and sh: "agent_shaped s_size a_size h_size ag"
    and len: "length state = s_size" and k1: "1 < topk" and k2: "topk \<le> int a_size"
  shows "\<exists>probs emb js.
           forward ag state = Inr (probs, emb) \<and>
           act tk drawn ag state topk False =
             Inr (js, js ! 0, map (\<lambda>i. ln (probs ! i)) js, emb) \<and>
           js = snd (tk probs (nat topk)) \<and>
           (\<forall>p q. p < q \<and> q < length js \<longrightarrow> probs ! (js ! q) \<le> probs ! (js ! p))"
proof -
  from k1 k2 have "0 < a_size" by simp
  from forward_distribution_aux [OF sh len this] obtain probs emb where
    f: "forward ag state = Inr (probs, emb)" and lp: "length probs = a_size"
    by blast
  from k2 lp have k2': "topk \<le> int (length probs)" by simp
  let ?js = "snd (tk probs (nat topk))"
  from act_topk_library [OF c f k1 k2', of drawn] have
    r: "act tk drawn ag state topk False =
          Inr (?js, ?js ! 0, map (\<lambda>i. ln (probs ! i)) ?js, emb)"
    and t: "ranks_top probs (nat topk) ?js"
    by simp_all
  have "\<forall>p q. p < q \<and> q < length ?js \<longrightarrow> probs ! (?js ! q) \<le> probs ! (?js ! p)"
  proof (intro allI impI)
    fix p q assume pq: "p < q \<and> q < length ?js"
    with t have "q < nat topk" by (simp add: ranks_top_def)
    moreover from pq have "p \<le> q" by simp
    ultimately show "probs ! (?js ! q) \<le> probs ! (?js ! p)"
      by (rule ranks_top_nth_mono [OF t, rotated])
  qed
  with f r show ?thesis by blast
qed

theorem topk_ranking_order_witness:
  "topk_contract topk_hi \<and> agent_shaped 4 5 3 example_agent \<and> length example_state = 4 \<and>
   (1::int) < 5 \<and> (5::int) \<le> int 5 \<and>
   act topk_hi 0 example_agent example_state 5 False =
     Inr ([3, 1, 4, 0, 2], 3, [ln (9/20), ln (3/10), ln (1/10), ln (1/10), ln (1/20)],
          [-1, 2, 0]) \<and>
   snd (topk_hi [1/10, 3/10, 1/20, 9/20, 1/10] 5) = [3, 1, 4, 0, 2]"
proof -
  have l: "length example_state = 4" by (simp add: example_state_def)
  have k1: "(1::int) < 5" and k2: "(5::int) \<le> int 5" by simp_all
  from topk_ranking_order [OF topk_hi_contract example_agent_shaped l k1 k2, of 0]
  have "snd (topk_hi [1/10, 3/10, 1/20, 9/20, 1/10] 5) = [3, 1, 4, 0, 2]"
    by (simp add: example_forward example_act_top5)
  with topk_hi_contract example_agent_shaped l k1 k2 example_act_top5 [of 0]
  show ?thesis by (intro conjI)
qed

section \<open>The handlers of the analytics service\<close>

lemma groups_result:
  assumes m: "req_method req = ''POST''" and l: "req_form req ''location'' = Some location"
  shows "\<exists>r. groups path_exists tsne req = Inr r \<and>
           (no_data_result r \<longleftrightarrow>
              \<not> path_exists location \<or> \<not> path_exists (os_path_join location ''Embeddings'') \<or>
              eq_minus_one (tsne location))"
  by (simp add: groups_def m l no_data_result_def Let_def)

lemma stats_result:
  assumes m: "req_method req = ''POST''" and l: "req_form req ''location'' = Some location"
  shows "\<exists>r. stats path_exists get_life_stats req = Inr r \<and>
           (no_data_result r \<longleftrightarrow>
              \<not> path_exists location \<or>
              (case get_life_stats location of
                 (mean, variance, qof) \<Rightarrow>
                   eq_minus_one mean \<and> eq_minus_one variance \<and> eq_minus_one qof))"
  by (cases "get_life_stats location") (simp add: stats_def m l no_data_result_def)

text \<open>
  What the two handlers decide by themselves, for a request that names a location: they
  always answer with a JSON object, and that object is the structured error exactly when
  the location does not exist, the \<open>Embeddings\<close> subdirectory does not exist (\<open>groups\<close>), or the
  routine of \<open>graph_gen\<close> answers \<open>-1\<close>.  How \<open>tsne\<close> and \<open>get_life_stats\<close> treat a malformed
  directory, and whether they raise, is decided in \<open>graph_gen\<close>; the handlers catch
  nothing.
\<close>

lemma handlers_report_no_data:
  assumes m: "req_method req = ''POST''" and l: "req_form req ''location'' = Some location"
  shows "(\<exists>r. groups path_exists tsne req = Inr r \<and>
           (no_data_result r \<longleftrightarrow>
              \<not> path_exists location \<or> \<not> path_exists (os_path_join location ''Embeddings'') \<or>
              eq_minus_one (tsne location))) \<and>
         (\<exists>r. stats path_exists get_life_stats req = Inr r \<and>
           (no_data_result r \<longleftrightarrow>
              \<not> path_exists location \<or>
              (case get_life_stats location of
                 (mean, variance, qof) \<Rightarrow>
                   eq_minus_one mean \<and> eq_minus_one variance \<and> eq_minus_one qof)))"
  using groups_result [OF m l] stats_result [OF m l] by (intro conjI)

lemma handlers_report_no_data_example:
  "groups (\<lambda>p. p = ''/runs'') (\<lambda>p. JInt (- 1))
      \<lparr>req_method = ''POST'', req_form = [''location'' \<mapsto> ''/gone'']\<rparr> =
     Inr [(''title'', JStr ''Error''),
          (''text'', JStr ''The location /gone does not exist''),
          (''icon'', JStr ''error'')] \<and>
   groups (\<lambda>p. p = ''/runs'') (\<lambda>p. JInt (- 1))
      \<lparr>req_method = ''POST'', req_form = [''location'' \<mapsto> ''/runs'']\<rparr> =
     Inr [(''title'', JStr ''Error''),
          (''text'', JStr ''The location /runs does not have any embeddings''),
          (''icon'', JStr ''error'')] \<and>
   groups (\<lambda>p. True) (\<lambda>p. JInt (- 1))
      \<lparr>req_method = ''POST'', req_form = [''location'' \<mapsto> ''/runs'']\<rparr> =
     Inr [(''title'', JStr ''Error''),
          (''text'', JStr ''The location /runs does not have any embeddings''),
          (''icon'', JStr ''error'')] \<and>
   stats (\<lambda>p. True) (\<lambda>p. (JInt (- 1), JInt (- 1), JInt (- 1)))
      \<lparr>req_method = ''POST'', req_form = [''location'' \<mapsto> ''/runs'']\<rparr> =
     Inr [(''title'', JStr ''Error''),
          (''text'', JStr ''The location /runs does not have any log files''),
          (''icon'', JStr ''error'')] \<and>
   stats (\<lambda>p. True) (\<lambda>p. (JReal 2, JReal 1, JReal 0))
      \<lparr>req_method = ''POST'', req_form = [''location'' \<mapsto> ''/runs'']\<rparr> =
     Inr [(''title'', JStr ''Success''), (''text'', JStr ''Stats generated successfully''),
          (''icon'', JStr ''success''), (''mean'', JReal 2), (''variance'', JReal 1),
          (''qof'', JReal 0)]"
proof -
  let ?req = "\<lparr>req_method = ''POST'', req_form = [''location'' \<mapsto> ''/gone'']\<rparr>"
  have m: "req_method ?req = ''POST''" and l: "req_form ?req ''location'' = Some ''/gone''"
    by simp_all
  from handlers_report_no_data [OF m l, of "\<lambda>p. p = ''/runs''" "\<lambda>p. JInt (- 1)"
      "\<lambda>p. (JInt (- 1), JInt (- 1), JInt (- 1))"]
  have "groups (\<lambda>p. p = ''/runs'') (\<lambda>p. JInt (- 1)) ?req =
     Inr [(''title'', JStr ''Error''),
          (''text'', JStr ''The location /gone does not exist''),
          (''icon'', JStr ''error'')]"
    by (simp add: groups_def)
  then show ?thesis
    by (simp add: groups_def stats_def os_path_join_def)
qed

end
